theory Spec2Isabelle
  imports Main
begin

section \<open>Data model\<close>

text \<open>
  Python objects are mutable and referred to by reference, so the component objects live
  in an explicit store: a list of cells, an address being an index. Allocation appends a
  cell, so an address that is in range never becomes invalid.
\<close>

type_synonym addr = nat

text \<open>The component classes of \<open>systemrdl.component\<close>; \<open>isinstance(x, comp.Addrmap)\<close>
  is the test \<open>category x = Addrmap\<close>.\<close>

datatype category = Field | Reg | Regfile | Addrmap | Mem | Signal

datatype pvalue = IntV int | BoolV bool | StrV string | RefV addr

text \<open>
  Modelled from the spec: the class \<open>Component\<close> (module \<open>component\<close>) is not among the
  sources. A component has a type category, a type name, an instance name, the
  \<open>is_instance\<close> flag, an ordered sequence of child components and a mapping from property
  names to values, some of which are references to other components.
\<close>

record component =
  category :: category
  type_name :: "string option"
  inst_name :: "string option"
  is_instance :: bool
  children :: "addr list"
  properties :: "(string \<times> pvalue) list"

text \<open>
  Modelled from the spec: \<open>Node\<close> (module \<open>node\<close>) wraps a reference to an instance; the
  back-reference to the compiler is the session that is threaded through every call.
\<close>

datatype node = Node (inst: addr)

datatype listener =
    ElabExpressionsListener
  | PrePlacementValidateListener
  | StructuralPlacementListener
  | ValidateListener

text \<open>\<open>RDLCompileError\<close> is what \<open>msg.fatal\<close> raises; \<open>NotImplementedError\<close> is Python's.\<close>

datatype error = RDLCompileError string | NotImplementedError

text \<open>
  The state of an \<open>RDLCompiler\<close> object: \<open>self.msg.error_count\<close>,
  \<open>self.root.comp_defs\<close> (an insertion-ordered dictionary from type names to component
  objects, kept as the list of its items in insertion order),
  \<open>self.namespace.default_property_ns_stack\<close> (a list of dictionaries) and the store.
\<close>

record session =
  error_count :: nat
  comp_defs :: "(string \<times> addr) list"
  default_property_ns_stack :: "(string \<times> pvalue) list list"
  heap :: "component list"

text \<open>
  A log of the calls made to collaborators, kept beside the session so that no collaborator
  can alter it: the visit of a parse tree, the deep copy of a definition (source and copy),
  and a walk with its \<open>skip_not_present\<close> flag, its listeners in order and the value of the
  error counter when the walk started.
\<close>

datatype event =
    Visit_ev
  | Deepcopy_ev addr addr
  | Walk_ev bool "listener list" nat

type_synonym 'a outcome = "(error + 'a) \<times> session \<times> event list"

text \<open>
  The collaborators whose code is not among the sources are parameters.
  \<^item> \<open>parse_root path\<close>: the ANTLR front end run on a file; it gives the parse tree and the
    number of syntax errors it reported to the error listeners (see \<open>compile_file\<close>).
  \<^item> \<open>visit tree s\<close>: \<open>RootVisitor.visit\<close>, which records definitions and semantic errors
    in the session. It may raise through \<open>msg.fatal\<close>: then it gives the message, and the
    session as the visitor left it when the exception was raised.
  \<^item> \<open>walk skip_not_present listeners top_node s\<close>: \<open>RDLWalker(skip_not_present).walk\<close>
    with the given listeners. It may change the session, and it may raise through
    \<open>msg.fatal\<close>: then it gives the message.
\<close>

record 't env =
  parse_root :: "string \<Rightarrow> 't \<times> nat"
  visit :: "'t \<Rightarrow> session \<Rightarrow> string option \<times> session"
  walk :: "bool \<Rightarrow> listener list \<Rightarrow> node \<Rightarrow> session \<Rightarrow> string option \<times> session"

text \<open>
  Modelled from the spec: \<open>MessageHandler.fatal\<close> (module \<open>messages\<close>) is not among the
  sources. A fatal condition raises the unwinding compile error; the session is left as
  it is.
\<close>

definition fatal :: "string \<Rightarrow> session \<Rightarrow> (error + 'a) \<times> session" where
  "fatal text s = (Inl (RDLCompileError text), s)"

text \<open>
  Modelled from the spec: the default of \<open>RDLWalker\<close>'s \<open>skip_not_present\<close> argument
  (module \<open>walker\<close>) is not among the sources. Final validation, which constructs the
  walker with no argument, skips instances that are not present: the flag is on.
\<close>

definition RDLWalker_default_skip_not_present :: bool where
  "RDLWalker_default_skip_not_present = True"

section \<open>Deep copy\<close>

text \<open>The references an object holds: its children and its reference-valued properties.\<close>

definition prop_refs :: "(string \<times> pvalue) list \<Rightarrow> addr list" where
  "prop_refs ps = concat (map (\<lambda>(k, v). case v of RefV a \<Rightarrow> [a] | _ \<Rightarrow> []) ps)"

definition refs_of :: "component \<Rightarrow> addr list" where
  "refs_of c = children c @ prop_refs (properties c)"

definition succs :: "component list \<Rightarrow> addr list \<Rightarrow> addr list" where
  "succs h as = concat (map (\<lambda>a. if a < length h then refs_of (h ! a) else []) as)"

fun closure :: "component list \<Rightarrow> nat \<Rightarrow> addr list \<Rightarrow> addr list" where
  "closure h 0 as = as"
| "closure h (Suc n) as = closure h n (remdups (as @ succs h as))"

text \<open>Every object reachable from \<open>a\<close>, each once: as many rounds as the store has cells.\<close>

definition reachable_list :: "component list \<Rightarrow> addr \<Rightarrow> addr list" where
  "reachable_list h a = closure h (length h) [a]"

primrec index_of :: "addr list \<Rightarrow> addr \<Rightarrow> nat option" where
  "index_of [] x = None"
| "index_of (y # ys) x = (if x = y then Some 0 else map_option Suc (index_of ys x))"

text \<open>The memo of \<open>copy.deepcopy\<close>: the \<open>i\<close>-th copied object goes to the \<open>i\<close>-th new cell.\<close>

definition rename :: "nat \<Rightarrow> addr list \<Rightarrow> addr \<Rightarrow> addr" where
  "rename base rs x = (case index_of rs x of Some i \<Rightarrow> base + i | None \<Rightarrow> x)"

definition rename_value :: "(addr \<Rightarrow> addr) \<Rightarrow> pvalue \<Rightarrow> pvalue" where
  "rename_value ren v = (case v of RefV a \<Rightarrow> RefV (ren a) | _ \<Rightarrow> v)"

definition rename_component :: "(addr \<Rightarrow> addr) \<Rightarrow> component \<Rightarrow> component" where
  "rename_component ren c =
     c\<lparr>children := map ren (children c),
       properties := map (\<lambda>(k, v). (k, rename_value ren v)) (properties c)\<rparr>"

text \<open>
  \<open>copy.deepcopy\<close>: every object reachable from \<open>a\<close> is copied once into a new cell, and
  the references inside the copies are redirected to the copies. The result is the
  address of the copy of \<open>a\<close> and the extended store.
\<close>

definition deepcopy :: "component list \<Rightarrow> addr \<Rightarrow> addr \<times> component list" where
  "deepcopy h a =
     (let rs = reachable_list h a; ren = rename (length h) rs
      in (ren a, h @ map (\<lambda>x. rename_component ren (h ! x)) rs))"

section \<open>compile_file\<close>

text \<open>
  The two error listeners attached to the lexer and the parser report to \<open>self.msg\<close>.
  Modelled from the spec: \<open>RDLAntlrErrorListener\<close> (module \<open>messages\<close>) is not among the
  sources; each syntax error is recorded in the session's single error counter.
  The call of the visitor at line 76 is not inside a \<open>try\<close>: when it raises, the exception
  leaves \<open>compile_file\<close> at once, and neither the reset of line 80 nor the test of lines 82
  and 83 is reached.
\<close>

definition compile_file :: "'t env \<Rightarrow> string \<Rightarrow> session \<Rightarrow> unit outcome" where
  "compile_file env path s =
     (let (parsed_tree, syntax_errors) = parse_root env path;
          s1 = s\<lparr>error_count := error_count s + syntax_errors\<rparr>
      in if error_count s1 \<noteq> 0
         then (case fatal ''Parse aborted due to previous errors'' s1 of
                 (r, s') \<Rightarrow> (r, s', []))
         else
           (case visit env parsed_tree s1 of
              (Some m, s2) \<Rightarrow> (Inl (RDLCompileError m), s2, [Visit_ev])
            | (None, s2) \<Rightarrow>
                (let s3 = s2\<lparr>default_property_ns_stack := [[]]\<rparr>
                 in if error_count s3 \<noteq> 0
                    then (case fatal ''Compile aborted due to previous errors'' s3 of
                            (r, s') \<Rightarrow> (r, s', [Visit_ev]))
                    else (Inr (), s3, [Visit_ev]))))"

section \<open>elaborate\<close>

definition is_addrmap :: "component list \<Rightarrow> addr \<Rightarrow> bool" where
  "is_addrmap h a = (a < length h \<and> category (h ! a) = Addrmap)"

definition quoted :: "string \<Rightarrow> string" where
  "quoted n = [CHR 0x27] @ n @ [CHR 0x27]"

text \<open>
  Lines 120 to 137: the definition to elaborate and the resolved \<open>top_def_name\<close>. The
  loop over \<open>reversed(self.root.comp_defs.values())\<close> stops at the first addrmap it meets,
  that is the last one defined.
\<close>

definition last_addrmap :: "session \<Rightarrow> addr option" where
  "last_addrmap s = find (is_addrmap (heap s)) (rev (map snd (comp_defs s)))"

definition select_top_def ::
  "string option \<Rightarrow> session \<Rightarrow> error + (addr \<times> string option)" where
  "select_top_def top_def_name s =
     (case top_def_name of
        Some n \<Rightarrow>
          (case map_of (comp_defs s) n of
             None \<Rightarrow> Inl (RDLCompileError (''Elaboration target '' @ quoted n @ '' not found''))
           | Some top_def \<Rightarrow>
               if \<not> is_addrmap (heap s) top_def
               then Inl (RDLCompileError
                      (''Elaboration target '' @ quoted n @ '' is not an '' @ quoted ''addrmap''
                        @ '' component''))
               else Inr (top_def, Some n))
      | None \<Rightarrow>
          (case last_addrmap s of
             Some comp_def \<Rightarrow> Inr (comp_def, type_name (heap s ! comp_def))
           | None \<Rightarrow>
               Inl (RDLCompileError
                      (''Could not find any '' @ quoted ''addrmap'' @ '' components to elaborate''))))"

text \<open>Lines 139 to 145: the top-level instance, a deep copy of the definition.\<close>

definition create_top_inst ::
  "addr \<Rightarrow> string option \<Rightarrow> string option \<Rightarrow> component list \<Rightarrow> addr \<times> component list" where
  "create_top_inst top_def top_def_name inst_name_arg h =
     (let (top_inst, h1) = deepcopy h top_def;
          h2 = h1[top_inst := (h1 ! top_inst)\<lparr>is_instance := True\<rparr>];
          h3 = h2[top_inst := (h2 ! top_inst)\<lparr>inst_name :=
                 (case inst_name_arg of Some i \<Rightarrow> Some i | None \<Rightarrow> top_def_name)\<rparr>]
      in (top_inst, h3))"

text \<open>Lines 154 to 173: the three walks, then the one test of the error counter.\<close>

definition run_passes :: "'t env \<Rightarrow> node \<Rightarrow> session \<Rightarrow> node outcome" where
  "run_passes env top_node s =
     (let ev1 = Walk_ev False [ElabExpressionsListener] (error_count s) in
      case walk env False [ElabExpressionsListener] top_node s of
        (Some m, s1) \<Rightarrow> (Inl (RDLCompileError m), s1, [ev1])
      | (None, s1) \<Rightarrow>
          (let ev2 = Walk_ev False [PrePlacementValidateListener, StructuralPlacementListener]
                       (error_count s1) in
           case walk env False [PrePlacementValidateListener, StructuralPlacementListener]
                  top_node s1 of
             (Some m, s2) \<Rightarrow> (Inl (RDLCompileError m), s2, [ev1, ev2])
           | (None, s2) \<Rightarrow>
               (let ev3 = Walk_ev RDLWalker_default_skip_not_present [ValidateListener]
                            (error_count s2) in
                case walk env RDLWalker_default_skip_not_present [ValidateListener]
                       top_node s2 of
                  (Some m, s3) \<Rightarrow> (Inl (RDLCompileError m), s3, [ev1, ev2, ev3])
                | (None, s3) \<Rightarrow>
                    if error_count s3 \<noteq> 0
                    then (case fatal ''Elaborate aborted due to previous errors'' s3 of
                            (r, s') \<Rightarrow> (r, s', [ev1, ev2, ev3]))
                    else (Inr top_node, s3, [ev1, ev2, ev3]))))"

definition elaborate ::
  "'t env \<Rightarrow> string option \<Rightarrow> string option \<Rightarrow> (string \<times> pvalue) list option \<Rightarrow> session
     \<Rightarrow> node outcome" where
  "elaborate env top_def_name inst_name_arg parameters s =
     (let parameters' = (case parameters of None \<Rightarrow> [] | Some p \<Rightarrow> p) in
      case select_top_def top_def_name s of
        Inl e \<Rightarrow> (Inl e, s, [])
      | Inr (top_def, top_def_name') \<Rightarrow>
          (let (top_inst, h') = create_top_inst top_def top_def_name' inst_name_arg (heap s);
               s1 = s\<lparr>heap := h'\<rparr>;
               ev0 = Deepcopy_ev top_def top_inst
           in if length parameters' \<noteq> 0
              then (Inl NotImplementedError, s1, [ev0])
              else (case run_passes env (Node top_inst) s1 of
                      (r, s', evs) \<Rightarrow> (r, s', ev0 # evs))))"

section \<open>Observations on the log\<close>


section \<open>Example sessions\<close>

definition ex_comp :: "category \<Rightarrow> string \<Rightarrow> addr list \<Rightarrow> component" where
  "ex_comp c n cs =
     \<lparr>category = c, type_name = Some n, inst_name = None, is_instance = False,
      children = cs, properties = []\<rparr>"

text \<open>A field, a register holding it, and two address maps that both hold the register.\<close>

definition ex_heap :: "component list" where
  "ex_heap =
     [ex_comp Field ''f'' [], ex_comp Reg ''r'' [0],
      ex_comp Addrmap ''a'' [1], ex_comp Addrmap ''top'' [1]]"

definition ex_session :: session where
  "ex_session =
     \<lparr>error_count = 0, comp_defs = [(''r'', 1), (''a'', 2), (''top'', 3)],
      default_property_ns_stack = [[]], heap = ex_heap\<rparr>"

text \<open>A session with definitions but no address map.\<close>

definition ex_session_no_addrmap :: session where
  "ex_session_no_addrmap = ex_session\<lparr>comp_defs := [(''r'', 1)]\<rparr>"

text \<open>
  A walk that records, as a property of the instance it is given, the listeners it was
  called with and its \<open>skip_not_present\<close> flag.
\<close>

fun listener_name :: "listener \<Rightarrow> string" where
  "listener_name ElabExpressionsListener = ''expr''"
| "listener_name PrePlacementValidateListener = ''prevalidate''"
| "listener_name StructuralPlacementListener = ''place''"
| "listener_name ValidateListener = ''validate''"

definition ex_walk :: "bool \<Rightarrow> listener list \<Rightarrow> node \<Rightarrow> session \<Rightarrow> string option \<times> session" where
  "ex_walk skip ls n s =
     (None, s\<lparr>heap := (heap s)[inst n :=
        (heap s ! inst n)\<lparr>properties :=
           (concat (map (\<lambda>l. listener_name l @ '';'') ls), BoolV skip)
             # properties (heap s ! inst n)\<rparr>]\<rparr>)"

text \<open>A walk whose expression pass records one error and goes on.\<close>

definition ex_walk_err :: "bool \<Rightarrow> listener list \<Rightarrow> node \<Rightarrow> session \<Rightarrow> string option \<times> session" where
  "ex_walk_err skip ls n s =
     (None, if ls = [ElabExpressionsListener] then s\<lparr>error_count := Suc (error_count s)\<rparr> else s)"

text \<open>
  A front end that reports two syntax errors in \<open>bad.rdl\<close>, and a visitor that
  \<^item> in \<open>fatal.rdl\<close> meets a default property assignment and then a fatal error;
  \<^item> in \<open>dup.rdl\<close> records a name conflict and goes on;
  \<^item> in \<open>use.rdl\<close> defines a register, which takes the default properties in force;
  \<^item> in any other file meets a default property assignment and nothing else.
\<close>

definition ex_parse :: "string \<Rightarrow> string \<times> nat" where
  "ex_parse path = (path, if path = ''bad.rdl'' then 2 else 0)"

definition ex_visit :: "string \<Rightarrow> session \<Rightarrow> string option \<times> session" where
  "ex_visit tree s =
     (if tree = ''fatal.rdl''
      then (Some ''fatal error in fatal.rdl'',
            s\<lparr>default_property_ns_stack := [[(''sw'', IntV 1)]]\<rparr>)
      else if tree = ''dup.rdl''
      then (None, s\<lparr>error_count := error_count s + 1,
                    default_property_ns_stack := [[(''sw'', IntV 1)]]\<rparr>)
      else if tree = ''use.rdl''
      then (None, s\<lparr>comp_defs := comp_defs s @ [(''u'', length (heap s))],
                    heap := heap s @
                      [\<lparr>category = Reg, type_name = Some ''u'', inst_name = None,
                        is_instance = False, children = [],
                        properties = concat (default_property_ns_stack s)\<rparr>]\<rparr>)
      else (None, s\<lparr>default_property_ns_stack := [[(''sw'', IntV 1)]]\<rparr>))"

definition ex_env :: "string env" where
  "ex_env = \<lparr>parse_root = ex_parse, visit = ex_visit, walk = ex_walk\<rparr>"

definition ex_env_err :: "string env" where
  "ex_env_err = \<lparr>parse_root = ex_parse, visit = ex_visit, walk = ex_walk_err\<rparr>"

section \<open>Well-formed stores and locality of the passes\<close>


text \<open>\<open>reach h a b\<close>: object \<open>b\<close> is reached from object \<open>a\<close> by following references.\<close>

inductive reach :: "component list \<Rightarrow> addr \<Rightarrow> addr \<Rightarrow> bool" for h :: "component list" and a :: addr where
  reach_refl: "reach h a a"
| reach_step: "\<lbrakk>reach h a b; b < length h; c \<in> set (refs_of (h ! b))\<rbrakk> \<Longrightarrow> reach h a c"




text \<open>
  Modelled from the spec: the passes resolve expressions and assign addresses; a walk
  over a node keeps the node's object, its \<open>is_instance\<close> flag and its instance name.
\<close>

definition walk_keeps_root ::
  "(bool \<Rightarrow> listener list \<Rightarrow> node \<Rightarrow> session \<Rightarrow> string option \<times> session) \<Rightarrow> bool" where
  "walk_keeps_root w =
     (\<forall>skip ls n s. inst n < length (heap s) \<longrightarrow>
        (let s' = snd (w skip ls n s) in
           inst n < length (heap s')
           \<and> is_instance (heap s' ! inst n) = is_instance (heap s ! inst n)
           \<and> inst_name (heap s' ! inst n) = inst_name (heap s ! inst n)))"

section \<open>Helper lemmas\<close>

lemma find_append_cases:
  "find P (xs @ ys) = (case find P xs of None \<Rightarrow> find P ys | Some x \<Rightarrow> Some x)"
  by (induction xs) auto

lemma find_rev_last:
  "\<lbrakk>P d; \<forall>x\<in>set post. \<not> P x\<rbrakk> \<Longrightarrow> find P (rev (pre @ d # post)) = Some d"
proof -
  assume "P d" and "\<forall>x\<in>set post. \<not> P x"
  then have "find P (rev post) = None" by (simp add: find_None_iff)
  with \<open>P d\<close> show ?thesis by (simp add: find_append_cases)
qed

lemma find_rev_none: "\<forall>x\<in>set xs. \<not> P x \<Longrightarrow> find P (rev xs) = None"
  by (simp add: find_None_iff)

lemma select_top_def_not_NotImplemented: "select_top_def t s \<noteq> Inl NotImplementedError"
  by (auto simp: select_top_def_def last_addrmap_def split: option.splits)

lemma run_passes_not_NotImplemented:
  "run_passes env n s = (r, s', evs) \<Longrightarrow> r \<noteq> Inl NotImplementedError"
  by (auto simp: run_passes_def fatal_def Let_def split: prod.splits option.splits if_splits)

subsection \<open>The store: closure, deep copy, regions\<close>

declare closure.simps [simp del]



lemma set_succs:
  "set (succs h as) = (\<Union>x\<in>{x \<in> set as. x < length h}. set (refs_of (h ! x)))"
  by (auto simp: succs_def split: if_splits)

lemma closure_Suc_end:
  "closure h (Suc n) as = remdups (closure h n as @ succs h (closure h n as))"
  by (induction n arbitrary: as) (simp_all add: closure.simps)

lemma set_closure_Suc:
  "set (closure h (Suc n) as) = set (closure h n as) \<union> set (succs h (closure h n as))"
  by (simp only: closure_Suc_end set_remdups set_append)

lemma closure_mono: "set (closure h n as) \<subseteq> set (closure h (Suc n) as)"
  by (simp only: set_closure_Suc) blast

lemma closure_infl: "set as \<subseteq> set (closure h n as)"
proof (induction n)
  case 0 show ?case by (simp add: closure.simps)
next
  case (Suc n) with closure_mono [of h n as] show ?case by blast
qed





lemma reachable_list_root: "a \<in> set (reachable_list h a)"
  using closure_infl [of "[a]" h "length h"] by (simp add: reachable_list_def)

lemma index_of_Some:
  "x \<in> set rs \<Longrightarrow> \<exists>i<length rs. index_of rs x = Some i"
  by (induction rs) auto

lemma rename_in: "x \<in> set rs \<Longrightarrow> base \<le> rename base rs x \<and> rename base rs x < base + length rs"
  using index_of_Some [of x rs] by (auto simp: rename_def)




lemma deepcopy_root:
  assumes "deepcopy h a = (a', h1)"
  shows "take (length h) h1 = h" and "length h \<le> a'" and "a' < length h1"
  using assms rename_in [OF reachable_list_root, of "length h" h a]
  by (auto simp: deepcopy_def Let_def)



lemma refs_of_flags [simp]:
  "refs_of (c\<lparr>is_instance := b\<rparr>) = refs_of c" "refs_of (c\<lparr>inst_name := n\<rparr>) = refs_of c"
  by (simp_all add: refs_of_def)

lemma create_top_inst_root:
  assumes "create_top_inst d nm i h = (a, h')"
  shows "take (length h) h' = h" and "length h \<le> a" and "a < length h'"
    and "is_instance (h' ! a)"
    and "inst_name (h' ! a) = (case i of Some x \<Rightarrow> Some x | None \<Rightarrow> nm)"
proof -
  obtain a1 h1 where dc: "deepcopy h d = (a1, h1)" by force
  define h2 where "h2 = h1[a1 := (h1 ! a1)\<lparr>is_instance := True\<rparr>]"
  from assms dc have a: "a = a1"
    and h': "h' = h2[a1 := (h2 ! a1)\<lparr>inst_name :=
                 (case i of Some x \<Rightarrow> Some x | None \<Rightarrow> nm)\<rparr>]"
    by (auto simp: create_top_inst_def Let_def h2_def)
  note r = deepcopy_root [OF dc]
  show "take (length h) h' = h" using r by (simp add: h' h2_def)
  show "length h \<le> a" using r by (simp add: a)
  show "a < length h'" using r by (simp add: a h' h2_def)
  show "is_instance (h' ! a)" using r by (simp add: a h' h2_def)
  show "inst_name (h' ! a) = (case i of Some x \<Rightarrow> Some x | None \<Rightarrow> nm)"
    using r by (simp add: a h' h2_def)
qed



lemma select_top_def_name:
  "select_top_def t s = Inr (d, nm) \<Longrightarrow>
     nm = (case t of Some n \<Rightarrow> Some n
           | None \<Rightarrow> (case last_addrmap s of Some x \<Rightarrow> type_name (heap s ! x) | None \<Rightarrow> None))"
  by (auto simp: select_top_def_def split: option.splits if_splits)


lemma run_passes_invariant:
  assumes step: "\<And>skip ls s. I s \<Longrightarrow> I (snd (walk env skip ls nd s))"
    and init: "I s" and run: "run_passes env nd s = (r, s', evs)"
  shows "I s' \<and> (\<forall>m. r = Inr m \<longrightarrow> m = nd)"
proof -
  obtain r1 s1 where w1: "walk env False [ElabExpressionsListener] nd s = (r1, s1)" by force
  obtain r2 s2 where w2: "walk env False
      [PrePlacementValidateListener, StructuralPlacementListener] nd s1 = (r2, s2)" by force
  obtain r3 s3 where w3: "walk env RDLWalker_default_skip_not_present [ValidateListener] nd s2
      = (r3, s3)" by force
  have i1: "I s1" using step [OF init, of False "[ElabExpressionsListener]"] w1 by simp
  have i2: "I s2"
    using step [OF i1, of False "[PrePlacementValidateListener, StructuralPlacementListener]"] w2
    by simp
  have i3: "I s3"
    using step [OF i2, of RDLWalker_default_skip_not_present "[ValidateListener]"] w3 by simp
  from run w1 w2 w3 have "s' = s1 \<or> s' = s2 \<or> s' = s3"
    by (auto simp: run_passes_def fatal_def Let_def split: option.splits if_splits)
  moreover from run w1 w2 w3 have "\<forall>m. r = Inr m \<longrightarrow> m = nd"
    by (auto simp: run_passes_def fatal_def Let_def split: option.splits if_splits)
  ultimately show ?thesis using i1 i2 i3 by blast
qed

lemma walk_keeps_root_step:
  assumes kr: "walk_keeps_root w"
    and inv: "inst nd < length (heap s) \<and> is_instance (heap s ! inst nd) = b
         \<and> inst_name (heap s ! inst nd) = nm"
  shows "inst nd < length (heap (snd (w skip ls nd s)))
         \<and> is_instance (heap (snd (w skip ls nd s)) ! inst nd) = b
         \<and> inst_name (heap (snd (w skip ls nd s)) ! inst nd) = nm"
proof -
  from inv have r: "inst nd < length (heap s)" by simp
  note k = kr [unfolded walk_keeps_root_def Let_def, rule_format, OF r,
      where skip = skip and ls = ls]
  from k inv show ?thesis by simp
qed

lemma closure_sound:
  assumes "\<forall>x\<in>set as. reach h a x"
  shows "\<forall>x\<in>set (closure h n as). reach h a x"
proof (induction n)
  case 0 from assms show ?case by (simp add: closure.simps)
next
  case (Suc n)
  show ?case
  proof
    fix x assume "x \<in> set (closure h (Suc n) as)"
    then consider "x \<in> set (closure h n as)" | "x \<in> set (succs h (closure h n as))"
      by (auto simp: set_closure_Suc)
    then show "reach h a x"
    proof cases
      case 1 with Suc show ?thesis by blast
    next
      case 2
      then obtain b where b: "b \<in> set (closure h n as)" "b < length h" "x \<in> set (refs_of (h ! b))"
        by (auto simp: set_succs)
      with Suc have "reach h a b" by blast
      with b show ?thesis by (blast intro: reach_step)
    qed
  qed
qed

lemma reachable_list_reach: "x \<in> set (reachable_list h d) \<Longrightarrow> reach h d x"
  using closure_sound [of "[d]" h d "length h"] by (auto simp: reachable_list_def intro: reach_refl)










subsection \<open>The example session\<close>

text \<open>The example session, evaluated.\<close>

lemma ex_select_inferred: "select_top_def None ex_session = Inr (3, Some ''top'')"
  by code_simp


lemma ex_create_fst: "fst (create_top_inst 3 (Some ''top'') None (heap ex_session)) = 4"
  by code_simp

lemma ex_elaborate_fst: "fst (elaborate ex_env None None None ex_session) = Inr (Node 4)"
  by code_simp

section \<open>Selection of the elaboration target\<close>

text \<open>
  Claim C1. A call of \<open>elaborate\<close> with a \<open>top_def_name\<close> that is not bound in the root
  namespace, or that is bound to a definition that is not an addrmap, fails with the
  fatal compile error, and so does a call without \<open>top_def_name\<close> when the root namespace
  holds no addrmap at all; in each case nothing is copied and no pass runs. A call
  without \<open>top_def_name\<close> selects the addrmap defined last: the one after which no addrmap
  is defined is the one that is deep-copied.
\<close>

theorem elaborate_target_selection:
  "(top_def_name = Some n \<and> map_of (comp_defs s) n = None \<longrightarrow>
      elaborate env top_def_name i p s =
        (Inl (RDLCompileError (''Elaboration target '' @ quoted n @ '' not found'')), s, []))
   \<and> (top_def_name = Some n \<and> map_of (comp_defs s) n = Some d \<and> \<not> is_addrmap (heap s) d \<longrightarrow>
      elaborate env top_def_name i p s =
        (Inl (RDLCompileError (''Elaboration target '' @ quoted n @ '' is not an ''
               @ quoted ''addrmap'' @ '' component'')), s, []))
   \<and> (top_def_name = None \<and> (\<forall>x\<in>set (comp_defs s). \<not> is_addrmap (heap s) (snd x)) \<longrightarrow>
      elaborate env top_def_name i p s =
        (Inl (RDLCompileError (''Could not find any '' @ quoted ''addrmap''
               @ '' components to elaborate'')), s, []))
   \<and> (top_def_name = None \<and> comp_defs s = pre @ (k, d) # post \<and> is_addrmap (heap s) d
        \<and> (\<forall>x\<in>set post. \<not> is_addrmap (heap s) (snd x)) \<longrightarrow>
      select_top_def top_def_name s = Inr (d, type_name (heap s ! d))
      \<and> (\<exists>a evs. snd (snd (elaborate env top_def_name i p s)) = Deepcopy_ev d a # evs))"
  (is "?A \<and> ?B \<and> ?C \<and> ?D")
proof -
  have A: ?A by (simp add: elaborate_def select_top_def_def last_addrmap_def)
  have B: ?B by (simp add: elaborate_def select_top_def_def last_addrmap_def)
  have C: ?C
  proof
    assume a: "top_def_name = None \<and> (\<forall>x\<in>set (comp_defs s). \<not> is_addrmap (heap s) (snd x))"
    then have "find (is_addrmap (heap s)) (rev (map snd (comp_defs s))) = None"
      by (intro find_rev_none) auto
    with a show "elaborate env top_def_name i p s =
        (Inl (RDLCompileError (''Could not find any '' @ quoted ''addrmap''
               @ '' components to elaborate'')), s, [])"
      by (simp add: elaborate_def select_top_def_def last_addrmap_def)
  qed
  have D: ?D
  proof
    assume a: "top_def_name = None \<and> comp_defs s = pre @ (k, d) # post \<and> is_addrmap (heap s) d
        \<and> (\<forall>x\<in>set post. \<not> is_addrmap (heap s) (snd x))"
    then have "find (is_addrmap (heap s)) (rev (map snd pre @ d # map snd post)) = Some d"
      by (intro find_rev_last) auto
    with a have sel: "select_top_def top_def_name s = Inr (d, type_name (heap s ! d))"
      by (simp add: select_top_def_def last_addrmap_def)
    then have "\<exists>a evs. snd (snd (elaborate env top_def_name i p s)) = Deepcopy_ev d a # evs"
      by (auto simp: elaborate_def Let_def split: prod.splits)
    with sel show "select_top_def top_def_name s = Inr (d, type_name (heap s ! d))
      \<and> (\<exists>a evs. snd (snd (elaborate env top_def_name i p s)) = Deepcopy_ev d a # evs)"
      by simp
  qed
  from A B C D show ?thesis by (intro conjI)
qed

theorem elaborate_target_selection_witness:
  "elaborate ex_env (Some ''zz'') None None ex_session =
     (Inl (RDLCompileError (''Elaboration target '' @ quoted ''zz'' @ '' not found'')),
      ex_session, [])
   \<and> elaborate ex_env (Some ''r'') None None ex_session =
     (Inl (RDLCompileError (''Elaboration target '' @ quoted ''r'' @ '' is not an ''
            @ quoted ''addrmap'' @ '' component'')), ex_session, [])
   \<and> elaborate ex_env None None None ex_session_no_addrmap =
     (Inl (RDLCompileError (''Could not find any '' @ quoted ''addrmap''
            @ '' components to elaborate'')), ex_session_no_addrmap, [])
   \<and> select_top_def None ex_session = Inr (3, type_name (heap ex_session ! 3))"
proof -
  have h1: "map_of (comp_defs ex_session) ''zz'' = None" by code_simp
  have h2: "map_of (comp_defs ex_session) ''r'' = Some 1 \<and> \<not> is_addrmap (heap ex_session) 1"
    by code_simp
  have h3: "\<forall>x\<in>set (comp_defs ex_session_no_addrmap).
              \<not> is_addrmap (heap ex_session_no_addrmap) (snd x)"
    by code_simp
  have h4: "comp_defs ex_session = [(''r'', 1), (''a'', 2)] @ (''top'', 3) # []
              \<and> is_addrmap (heap ex_session) 3
              \<and> (\<forall>x\<in>set []. \<not> is_addrmap (heap ex_session) (snd x))"
    by code_simp
  note T = elaborate_target_selection
  from h1 T [where top_def_name = "Some ''zz''" and n = "''zz''" and s = ex_session
      and env = ex_env and i = None and p = None]
  have A: "elaborate ex_env (Some ''zz'') None None ex_session =
     (Inl (RDLCompileError (''Elaboration target '' @ quoted ''zz'' @ '' not found'')),
      ex_session, [])"
    by blast
  from h2 T [where top_def_name = "Some ''r''" and n = "''r''" and s = ex_session
      and env = ex_env and i = None and p = None and d = 1]
  have B: "elaborate ex_env (Some ''r'') None None ex_session =
     (Inl (RDLCompileError (''Elaboration target '' @ quoted ''r'' @ '' is not an ''
            @ quoted ''addrmap'' @ '' component'')), ex_session, [])"
    by blast
  from h3 T [where top_def_name = None and s = ex_session_no_addrmap
      and env = ex_env and i = None and p = None]
  have C: "elaborate ex_env None None None ex_session_no_addrmap =
     (Inl (RDLCompileError (''Could not find any '' @ quoted ''addrmap''
            @ '' components to elaborate'')), ex_session_no_addrmap, [])"
    by blast
  from h4 T [where top_def_name = None and s = ex_session and pre = "[(''r'', 1), (''a'', 2)]"
      and k = "''top''" and d = 3 and post = "[]" and env = ex_env and i = None and p = None]
  have D: "select_top_def None ex_session = Inr (3, type_name (heap ex_session ! 3))"
    by blast
  from A B C D show ?thesis by (intro conjI)
qed

section \<open>Structure of the passes\<close>

text \<open>
  Claim C2. A call of \<open>elaborate\<close> that has selected its target and has no parameters runs
  the passes as three calls of the walker on the node of the new instance, each on the
  session the one before has left: first the expression listener alone, with
  \<open>skip_not_present\<close> off; then the pre-placement validation listener and the structural
  placement listener, in this order, on one walk, with \<open>skip_not_present\<close> off; last
  the validation listener alone, with \<open>skip_not_present\<close> on. A walk runs only when the
  one before has not raised, and the outcome of the call is what these calls give: the
  error of the first walk that raises, or the session of the third walk and the node.
\<close>

theorem elaborate_walk_structure:
  assumes "select_top_def t s = Inr (d, n)"
    and "create_top_inst d n i (heap s) = (a, h')"
    and "p = None \<or> p = Some []"
    and "walk env False [ElabExpressionsListener] (Node a) (s\<lparr>heap := h'\<rparr>) = (r1, s1)"
    and "walk env False [PrePlacementValidateListener, StructuralPlacementListener] (Node a) s1
           = (r2, s2)"
    and "walk env True [ValidateListener] (Node a) s2 = (r3, s3)"
  shows "elaborate env t i p s =
     (case r1 of
        Some m \<Rightarrow>
          (Inl (RDLCompileError m), s1,
           [Deepcopy_ev d a, Walk_ev False [ElabExpressionsListener] (error_count s)])
      | None \<Rightarrow>
          (case r2 of
             Some m \<Rightarrow>
               (Inl (RDLCompileError m), s2,
                [Deepcopy_ev d a, Walk_ev False [ElabExpressionsListener] (error_count s),
                 Walk_ev False [PrePlacementValidateListener, StructuralPlacementListener]
                   (error_count s1)])
           | None \<Rightarrow>
               (case r3 of
                  Some m \<Rightarrow> Inl (RDLCompileError m)
                | None \<Rightarrow>
                    if error_count s3 \<noteq> 0
                    then Inl (RDLCompileError ''Elaborate aborted due to previous errors'')
                    else Inr (Node a),
                s3,
                [Deepcopy_ev d a, Walk_ev False [ElabExpressionsListener] (error_count s),
                 Walk_ev False [PrePlacementValidateListener, StructuralPlacementListener]
                   (error_count s1),
                 Walk_ev True [ValidateListener] (error_count s2)])))"
  using assms
  by (auto simp: elaborate_def run_passes_def fatal_def Let_def
      RDLWalker_default_skip_not_present_def split: option.splits)

theorem elaborate_walk_structure_witness:
  "fst (snd (elaborate ex_env None None None ex_session)) =
     snd (walk ex_env True [ValidateListener] (Node 4)
       (snd (walk ex_env False [PrePlacementValidateListener, StructuralPlacementListener] (Node 4)
         (snd (walk ex_env False [ElabExpressionsListener] (Node 4)
           (ex_session\<lparr>heap := snd (create_top_inst 3 (Some ''top'') None (heap ex_session))\<rparr>))))))
   \<and> properties (heap (fst (snd (elaborate ex_env None None None ex_session))) ! 4) =
       [(''validate;'', BoolV True), (''prevalidate;place;'', BoolV False),
        (''expr;'', BoolV False)]"
proof -
  define h' where "h' = snd (create_top_inst 3 (Some ''top'') None (heap ex_session))"
  define s1 where "s1 = snd (walk ex_env False [ElabExpressionsListener] (Node 4)
      (ex_session\<lparr>heap := h'\<rparr>))"
  define s2 where "s2 = snd (walk ex_env False
      [PrePlacementValidateListener, StructuralPlacementListener] (Node 4) s1)"
  define s3 where "s3 = snd (walk ex_env True [ValidateListener] (Node 4) s2)"
  have cr: "create_top_inst 3 (Some ''top'') None (heap ex_session) = (4, h')"
    using ex_create_fst by (simp add: h'_def prod_eq_iff)
  have w1: "walk ex_env False [ElabExpressionsListener] (Node 4) (ex_session\<lparr>heap := h'\<rparr>)
      = (None, s1)"
    by (simp add: s1_def ex_env_def ex_walk_def)
  have w2: "walk ex_env False [PrePlacementValidateListener, StructuralPlacementListener]
      (Node 4) s1 = (None, s2)"
    by (simp add: s2_def ex_env_def ex_walk_def)
  have w3: "walk ex_env True [ValidateListener] (Node 4) s2 = (None, s3)"
    by (simp add: s3_def ex_env_def ex_walk_def)
  from elaborate_walk_structure [OF ex_select_inferred cr _ w1 w2 w3, of None]
  have "fst (snd (elaborate ex_env None None None ex_session)) = s3" by simp
  then have A: "fst (snd (elaborate ex_env None None None ex_session)) =
     snd (walk ex_env True [ValidateListener] (Node 4)
       (snd (walk ex_env False [PrePlacementValidateListener, StructuralPlacementListener] (Node 4)
         (snd (walk ex_env False [ElabExpressionsListener] (Node 4)
           (ex_session\<lparr>heap := snd (create_top_inst 3 (Some ''top'') None (heap ex_session))\<rparr>))))))"
    by (simp add: s3_def s2_def s1_def h'_def)
  have B: "properties (heap (snd (walk ex_env True [ValidateListener] (Node 4)
       (snd (walk ex_env False [PrePlacementValidateListener, StructuralPlacementListener] (Node 4)
         (snd (walk ex_env False [ElabExpressionsListener] (Node 4)
           (ex_session\<lparr>heap := snd (create_top_inst 3 (Some ''top'') None (heap ex_session))\<rparr>))))))) ! 4) =
       [(''validate;'', BoolV True), (''prevalidate;place;'', BoolV False),
        (''expr;'', BoolV False)]"
    by code_simp
  from A B show ?thesis by simp
qed

section \<open>Parameters\<close>

text \<open>
  Claim C10. A call of \<open>elaborate\<close> with \<open>parameters = None\<close> is the call with the empty
  parameters map, and it never fails with \<open>NotImplementedError\<close>.
\<close>

theorem elaborate_parameters_None:
  "elaborate env t i None s = elaborate env t i (Some []) s
   \<and> fst (elaborate env t i None s) \<noteq> Inl NotImplementedError"
  using select_top_def_not_NotImplemented [of t s]
  by (auto simp: elaborate_def Let_def split: sum.splits prod.splits
      dest: run_passes_not_NotImplemented)

theorem elaborate_parameters_None_witness:
  "elaborate ex_env None None None ex_session = elaborate ex_env None None (Some []) ex_session
   \<and> fst (elaborate ex_env None None (Some []) ex_session) = Inr (Node 4)"
  using elaborate_parameters_None [of ex_env None None ex_session] ex_elaborate_fst
  by simp




section \<open>The test of the error counter\<close>

text \<open>
  Claim C3, as amended. \<open>elaborate\<close> tests the error counter once, after the final
  validation walk. When none of the three walks raises, all three run, whatever the
  earlier ones recorded; the call then fails with the fatal compile error when the
  counter is not zero, and returns the node when it is.
\<close>

theorem elaborate_single_error_check:
  assumes "select_top_def t s = Inr (d, n)"
    and "create_top_inst d n i (heap s) = (a, h')"
    and "walk env False [ElabExpressionsListener] (Node a) (s\<lparr>heap := h'\<rparr>) = (None, s1)"
    and "walk env False [PrePlacementValidateListener, StructuralPlacementListener] (Node a) s1
           = (None, s2)"
    and "walk env RDLWalker_default_skip_not_present [ValidateListener] (Node a) s2 = (None, s3)"
  shows "elaborate env t i None s =
     (if error_count s3 \<noteq> 0
      then Inl (RDLCompileError ''Elaborate aborted due to previous errors'')
      else Inr (Node a),
      s3,
      [Deepcopy_ev d a,
       Walk_ev False [ElabExpressionsListener] (error_count s),
       Walk_ev False [PrePlacementValidateListener, StructuralPlacementListener] (error_count s1),
       Walk_ev RDLWalker_default_skip_not_present [ValidateListener] (error_count s2)])"
  using assms by (simp add: elaborate_def run_passes_def fatal_def Let_def)

theorem elaborate_single_error_check_witness:
  "elaborate ex_env_err None None None ex_session =
     (Inl (RDLCompileError ''Elaborate aborted due to previous errors''),
      ex_session\<lparr>heap := snd (create_top_inst 3 (Some ''top'') None (heap ex_session)),
                 error_count := 1\<rparr>,
      [Deepcopy_ev 3 4,
       Walk_ev False [ElabExpressionsListener] 0,
       Walk_ev False [PrePlacementValidateListener, StructuralPlacementListener] 1,
       Walk_ev RDLWalker_default_skip_not_present [ValidateListener] 1])"
proof -
  define h' where "h' = snd (create_top_inst 3 (Some ''top'') None (heap ex_session))"
  define s1 where "s1 = ex_session\<lparr>heap := h', error_count := 1\<rparr>"
  have e0: "error_count ex_session = 0" by (simp add: ex_session_def)
  have cr: "create_top_inst 3 (Some ''top'') None (heap ex_session) = (4, h')"
    using ex_create_fst by (simp add: h'_def prod_eq_iff)
  have w1: "walk ex_env_err False [ElabExpressionsListener] (Node 4) (ex_session\<lparr>heap := h'\<rparr>)
              = (None, s1)"
    by (simp add: ex_env_err_def ex_walk_err_def s1_def e0)
  have w2: "walk ex_env_err False [PrePlacementValidateListener, StructuralPlacementListener]
              (Node 4) s1 = (None, s1)"
    by (simp add: ex_env_err_def ex_walk_err_def)
  have w3: "walk ex_env_err RDLWalker_default_skip_not_present [ValidateListener] (Node 4) s1
              = (None, s1)"
    by (simp add: ex_env_err_def ex_walk_err_def)
  have e1: "error_count s1 = 1" by (simp add: s1_def)
  from elaborate_single_error_check [OF ex_select_inferred cr w1 w2 w3]
  show ?thesis by (simp add: e0 e1) (simp add: s1_def h'_def)
qed

text \<open>
  The claim as stated fails: the expression walk of the example records an error and
  does not raise; the placement walk and the validation walk both start with that error
  outstanding, and only then is the call aborted.
\<close>

theorem elaborate_no_check_between_passes_counterexample:
  "snd (snd (elaborate ex_env_err None None None ex_session)) =
     [Deepcopy_ev 3 4,
      Walk_ev False [ElabExpressionsListener] 0,
      Walk_ev False [PrePlacementValidateListener, StructuralPlacementListener] 1,
      Walk_ev True [ValidateListener] 1]
   \<and> fst (elaborate ex_env_err None None None ex_session) =
       Inl (RDLCompileError ''Elaborate aborted due to previous errors'')"
  by code_simp

section \<open>Errors and default properties in compile_file\<close>

text \<open>
  Claim C7. When the front end reports a syntax error, \<open>compile_file\<close> fails with the
  fatal compile error and the parse tree is never visited: the session only has the
  errors counted. The tree is visited only when the counter is zero after the parse.
  When the visit returns and leaves errors recorded, the call fails with the fatal
  compile error after the visit, the default properties reset. When the visit itself
  raises, the call fails with that fatal compile error, in the session the visitor left.
\<close>

theorem compile_file_aborts_on_errors:
  assumes pr: "parse_root env path = (tree, n)"
  shows "(0 < n \<longrightarrow>
      compile_file env path s =
        (Inl (RDLCompileError ''Parse aborted due to previous errors''),
         s\<lparr>error_count := error_count s + n\<rparr>, []))
   \<and> (error_count s + n = 0
        \<and> visit env tree (s\<lparr>error_count := error_count s + n\<rparr>) = (None, s2)
        \<and> 0 < error_count s2 \<longrightarrow>
      compile_file env path s =
        (Inl (RDLCompileError ''Compile aborted due to previous errors''),
         s2\<lparr>default_property_ns_stack := [[]]\<rparr>, [Visit_ev]))
   \<and> (error_count s + n = 0
        \<and> visit env tree (s\<lparr>error_count := error_count s + n\<rparr>) = (Some m, s2) \<longrightarrow>
      compile_file env path s = (Inl (RDLCompileError m), s2, [Visit_ev]))"
  (is "?A \<and> ?B \<and> ?C")
proof -
  have A: ?A using pr by (simp add: compile_file_def fatal_def)
  have B: ?B
  proof
    assume a: "error_count s + n = 0
        \<and> visit env tree (s\<lparr>error_count := error_count s + n\<rparr>) = (None, s2)
        \<and> 0 < error_count s2"
    then have z: "error_count s = 0" "n = 0" by auto
    with a pr show "compile_file env path s =
        (Inl (RDLCompileError ''Compile aborted due to previous errors''),
         s2\<lparr>default_property_ns_stack := [[]]\<rparr>, [Visit_ev])"
      by (simp add: compile_file_def fatal_def Let_def)
  qed
  have C: ?C
  proof
    assume a: "error_count s + n = 0
        \<and> visit env tree (s\<lparr>error_count := error_count s + n\<rparr>) = (Some m, s2)"
    then have z: "error_count s = 0" "n = 0" by auto
    with a pr show "compile_file env path s = (Inl (RDLCompileError m), s2, [Visit_ev])"
      by (simp add: compile_file_def fatal_def Let_def)
  qed
  from A B C show ?thesis by (intro conjI)
qed

theorem compile_file_aborts_on_errors_witness:
  "compile_file ex_env ''bad.rdl'' ex_session =
     (Inl (RDLCompileError ''Parse aborted due to previous errors''),
      ex_session\<lparr>error_count := error_count ex_session + 2\<rparr>, [])
   \<and> compile_file ex_env ''dup.rdl'' ex_session =
     (Inl (RDLCompileError ''Compile aborted due to previous errors''),
      ex_session\<lparr>error_count := 1, default_property_ns_stack := [[]]\<rparr>, [Visit_ev])
   \<and> compile_file ex_env ''fatal.rdl'' ex_session =
     (Inl (RDLCompileError ''fatal error in fatal.rdl''),
      ex_session\<lparr>default_property_ns_stack := [[(''sw'', IntV 1)]]\<rparr>, [Visit_ev])"
proof -
  have e0: "error_count ex_session = 0" by (simp add: ex_session_def)
  have p1: "parse_root ex_env ''bad.rdl'' = (''bad.rdl'', 2)"
    by (simp add: ex_env_def ex_parse_def)
  have p2: "parse_root ex_env ''dup.rdl'' = (''dup.rdl'', 0)"
    by (simp add: ex_env_def ex_parse_def)
  have p3: "parse_root ex_env ''fatal.rdl'' = (''fatal.rdl'', 0)"
    by (simp add: ex_env_def ex_parse_def)
  have h2: "error_count ex_session + 0 = 0
     \<and> visit ex_env ''dup.rdl'' (ex_session\<lparr>error_count := error_count ex_session + 0\<rparr>)
         = (None, ex_session\<lparr>error_count := 1, default_property_ns_stack := [[(''sw'', IntV 1)]]\<rparr>)
     \<and> 0 < error_count
             (ex_session\<lparr>error_count := 1, default_property_ns_stack := [[(''sw'', IntV 1)]]\<rparr>)"
    by (simp add: ex_env_def ex_visit_def e0)
  have h3: "error_count ex_session + 0 = 0
     \<and> visit ex_env ''fatal.rdl'' (ex_session\<lparr>error_count := error_count ex_session + 0\<rparr>)
         = (Some ''fatal error in fatal.rdl'',
            ex_session\<lparr>default_property_ns_stack := [[(''sw'', IntV 1)]]\<rparr>)"
    by (simp add: ex_env_def ex_visit_def e0)
  from compile_file_aborts_on_errors [OF p1, of ex_session]
  have A: "compile_file ex_env ''bad.rdl'' ex_session =
     (Inl (RDLCompileError ''Parse aborted due to previous errors''),
      ex_session\<lparr>error_count := error_count ex_session + 2\<rparr>, [])"
    by simp
  from h2 compile_file_aborts_on_errors [OF p2, of ex_session]
  have "compile_file ex_env ''dup.rdl'' ex_session =
     (Inl (RDLCompileError ''Compile aborted due to previous errors''),
      (ex_session\<lparr>error_count := 1, default_property_ns_stack := [[(''sw'', IntV 1)]]\<rparr>)
        \<lparr>default_property_ns_stack := [[]]\<rparr>, [Visit_ev])"
    by blast
  then have B: "compile_file ex_env ''dup.rdl'' ex_session =
     (Inl (RDLCompileError ''Compile aborted due to previous errors''),
      ex_session\<lparr>error_count := 1, default_property_ns_stack := [[]]\<rparr>, [Visit_ev])"
    by simp
  from h3 compile_file_aborts_on_errors [OF p3, of ex_session]
  have C: "compile_file ex_env ''fatal.rdl'' ex_session =
     (Inl (RDLCompileError ''fatal error in fatal.rdl''),
      ex_session\<lparr>default_property_ns_stack := [[(''sw'', IntV 1)]]\<rparr>, [Visit_ev])"
    by blast
  from A B C show ?thesis by (intro conjI)
qed

text \<open>
  Claim C5. The reset of the default property contexts is not reached when the visit of
  the parse tree raises, so the claim fails on the code. In the example the visit of
  \<open>fatal.rdl\<close> assigns the default property \<open>sw\<close> and then raises: \<open>compile_file\<close> fails and
  the stack still holds the assignment. The caller catches the error and compiles
  \<open>use.rdl\<close> in the same session: the call returns, and the register it defines has taken
  the property \<open>sw\<close> of the other file. After \<open>ok.rdl\<close>, whose visit returns, the same
  register has no property: there the stack was reset.
\<close>

theorem compile_file_leaks_defaults_on_raise:
  "fst (compile_file ex_env ''fatal.rdl'' ex_session)
     = Inl (RDLCompileError ''fatal error in fatal.rdl'')
   \<and> default_property_ns_stack (fst (snd (compile_file ex_env ''fatal.rdl'' ex_session)))
       = [[(''sw'', IntV 1)]]
   \<and> fst (compile_file ex_env ''use.rdl''
            (fst (snd (compile_file ex_env ''fatal.rdl'' ex_session)))) = Inr ()
   \<and> properties (last (heap (fst (snd (compile_file ex_env ''use.rdl''
            (fst (snd (compile_file ex_env ''fatal.rdl'' ex_session))))))))
       = [(''sw'', IntV 1)]
   \<and> fst (compile_file ex_env ''ok.rdl'' ex_session) = Inr ()
   \<and> properties (last (heap (fst (snd (compile_file ex_env ''use.rdl''
            (fst (snd (compile_file ex_env ''ok.rdl'' ex_session))))))))
       = []"
  by code_simp

section \<open>The top-level instance\<close>

text \<open>
  Claim C9. When \<open>elaborate\<close> returns a node, the object the node wraps has its
  \<open>is_instance\<close> flag set, and its instance name is \<open>inst_name\<close> when that was given,
  otherwise the resolved name of the top definition: \<open>top_def_name\<close> when that was given,
  otherwise the type name of the addrmap defined last. The passes are taken to keep the
  flag and the name of the object they are given.
\<close>

theorem elaborate_root_instance:
  assumes keep: "walk_keeps_root (walk env)"
    and run: "elaborate env t i p s = (Inr nd, s', evs)"
  shows "inst nd < length (heap s')
     \<and> is_instance (heap s' ! inst nd)
     \<and> inst_name (heap s' ! inst nd) =
        (case i of
           Some x \<Rightarrow> Some x
         | None \<Rightarrow>
            (case t of
               Some n \<Rightarrow> Some n
             | None \<Rightarrow> (case last_addrmap s of
                          Some d \<Rightarrow> type_name (heap s ! d) | None \<Rightarrow> None)))"
proof -
  from run obtain d nm where sel: "select_top_def t s = Inr (d, nm)"
    by (auto simp: elaborate_def split: sum.splits)
  obtain a h' where cr: "create_top_inst d nm i (heap s) = (a, h')" by force
  from run sel cr obtain evs' where
    rp: "run_passes env (Node a) (s\<lparr>heap := h'\<rparr>) = (Inr nd, s', evs')"
    by (auto simp: elaborate_def Let_def split: if_splits prod.splits)
  note c = create_top_inst_root [OF cr]
  let ?I = "\<lambda>s::session. inst (Node a) < length (heap s) \<and> is_instance (heap s ! inst (Node a)) = True
     \<and> inst_name (heap s ! inst (Node a)) = (case i of Some x \<Rightarrow> Some x | None \<Rightarrow> nm)"
  have step: "\<And>skip ls s0. ?I s0 \<Longrightarrow> ?I (snd (walk env skip ls (Node a) s0))"
    by (rule walk_keeps_root_step [OF keep])
  have init: "?I (s\<lparr>heap := h'\<rparr>)" using c by simp
  from run_passes_invariant [of ?I env "Node a", OF step init rp]
  have "nd = Node a" and "?I s'" by simp_all
  then show ?thesis using select_top_def_name [OF sel] by (simp split: option.splits)
qed

lemma ex_walk_keeps_root: "walk_keeps_root (walk ex_env)"
  by (simp add: walk_keeps_root_def ex_env_def ex_walk_def Let_def)

theorem elaborate_root_instance_witness:
  "fst (elaborate ex_env None None None ex_session) = Inr (Node 4)
   \<and> is_instance (heap (fst (snd (elaborate ex_env None None None ex_session))) ! 4)
   \<and> inst_name (heap (fst (snd (elaborate ex_env None None None ex_session))) ! 4)
       = Some ''top''
   \<and> fst (elaborate ex_env (Some ''a'') (Some ''dut'') None ex_session) = Inr (Node 4)
   \<and> inst_name (heap (fst (snd (elaborate ex_env (Some ''a'') (Some ''dut'') None ex_session))) ! 4)
       = Some ''dut''"
proof -
  have la: "last_addrmap ex_session = Some 3" by code_simp
  have tn: "type_name (heap ex_session ! 3) = Some ''top''" by code_simp
  have f2: "fst (elaborate ex_env (Some ''a'') (Some ''dut'') None ex_session) = Inr (Node 4)"
    by code_simp
  have h1: "elaborate ex_env None None None ex_session =
     (Inr (Node 4), fst (snd (elaborate ex_env None None None ex_session)),
      snd (snd (elaborate ex_env None None None ex_session)))"
    using ex_elaborate_fst by (simp add: prod_eq_iff)
  have h2: "elaborate ex_env (Some ''a'') (Some ''dut'') None ex_session =
     (Inr (Node 4), fst (snd (elaborate ex_env (Some ''a'') (Some ''dut'') None ex_session)),
      snd (snd (elaborate ex_env (Some ''a'') (Some ''dut'') None ex_session)))"
    using f2 by (simp add: prod_eq_iff)
  from elaborate_root_instance [OF ex_walk_keeps_root h1]
  have A: "is_instance (heap (fst (snd (elaborate ex_env None None None ex_session))) ! 4)
     \<and> inst_name (heap (fst (snd (elaborate ex_env None None None ex_session))) ! 4)
         = Some ''top''"
    by (simp add: la tn)
  from elaborate_root_instance [OF ex_walk_keeps_root h2]
  have B: "inst_name
       (heap (fst (snd (elaborate ex_env (Some ''a'') (Some ''dut'') None ex_session))) ! 4)
         = Some ''dut''"
    by simp
  from ex_elaborate_fst f2 A B show ?thesis by simp
qed

section \<open>The instance and the definitions\<close>




end
